theory Spec2Isabelle
  imports Complex_Main "HOL-Library.Word" "HOL-Library.Sublist"
begin

section \<open>Message normalisation and media acquisition of the WeChat agent (internal/util.go)\<close>

text \<open>
  The theory embeds the functions of \<^verbatim>\<open>internal/util.go\<close>: the field extractors over
  parsed markup, the disk-polling media resolvers and blob persistence. Go strings are
  byte sequences, modelled as \<^typ>\<open>string\<close>; a nil pointer or nil slice result is
  \<^term>\<open>None\<close>. The standard library and the xmlquery package are not part of the file;
  what the functions use of them is modelled below from the packages' documented
  behaviour, or taken as a parameter where the behaviour is outside HOL (the XML
  tokenizer, floating-point parsing, the network, MD5).
\<close>

subsection \<open>Context and message records\<close>

text \<open>The fields of the structs that util.go reads (the structs are declared elsewhere).\<close>

record AppService =
  Workdir :: string
  Docdir :: string

record WechatMessage =
  Self :: string
  Message :: string
  ExtraInfo :: string
  FilePath :: string
  Thumbnail :: string

type_synonym byte = "8 word"

record BlobData =
  Name :: string
  Binary :: "byte list"

record 'f LocationData =
  LocName :: string
  Address :: string
  Latitude :: 'f
  Longitude :: 'f

record ReplyInfo =
  ID :: "64 word"
  Sender :: string

subsection \<open>The markup query primitive (xmlquery)\<close>

text \<open>
  A parsed document is a tree of elements (tag, attributes in source order, children)
  and character data. The document node is the root; it carries no tag of its own, so
  it is represented by an element with the empty tag whose children are the top-level
  nodes. Comments and processing instructions do not contribute to any query used here
  and are left out of the tree. The tokenizer itself (\<^verbatim>\<open>xmlquery.Parse\<close>) is a parameter
  \<open>parse\<close> of every extractor: \<^term>\<open>None\<close> is a parse error.
\<close>

datatype xml = Element string "(string \<times> string) list" "xml list" | CharData string

type_synonym xml_parser = "string \<Rightarrow> xml option"

text \<open>A query result is an element or text node of the tree, or an attribute (name, value).\<close>

datatype xnode = TreeNode xml | AttrNode string string

fun children :: "xml \<Rightarrow> xml list" where
  "children (Element t as cs) = cs"
| "children (CharData s) = []"

fun named :: "string \<Rightarrow> xml \<Rightarrow> bool" where
  "named n (Element t as cs) = (t = n)"
| "named n (CharData s) = False"

fun attr_nodes :: "string \<Rightarrow> xml \<Rightarrow> xnode list" where
  "attr_nodes a (Element t as cs) = map (\<lambda>(k, v). AttrNode k v) (filter (\<lambda>(k, v). k = a) as)"
| "attr_nodes a (CharData s) = []"

text \<open>The node itself and all its descendants, in document order.\<close>

fun descendant_or_self :: "xml \<Rightarrow> xml list" where
  "descendant_or_self (Element t as cs) = Element t as cs # concat (map descendant_or_self cs)"
| "descendant_or_self (CharData s) = [CharData s]"

text \<open>
  The location paths that util.go uses, step by step: \<^verbatim>\<open>/a\<close> is \<open>Child a\<close>,
  \<^verbatim>\<open>/@x\<close> is \<open>Attribute x\<close>, \<^verbatim>\<open>//a\<close> is \<open>AnyChild a\<close> and \<^verbatim>\<open>//@x\<close> is \<open>AnyAttribute x\<close>
  (both from the descendant-or-self axis). So \<^verbatim>\<open>/msg/location/@x\<close> is
  \<open>[Child ''msg'', Child ''location'', Attribute ''x'']\<close>.
\<close>

datatype step = Child string | Attribute string | AnyChild string | AnyAttribute string

fun child_step :: "string \<Rightarrow> xml list \<Rightarrow> xml list" where
  "child_step n ctx = concat (map (\<lambda>c. filter (named n) (children c)) ctx)"

fun select_nodes :: "step list \<Rightarrow> xml list \<Rightarrow> xnode list" where
  "select_nodes [] ctx = map TreeNode ctx"
| "select_nodes (Child n # ps) ctx = select_nodes ps (child_step n ctx)"
| "select_nodes (AnyChild n # ps) ctx =
     select_nodes ps (child_step n (concat (map descendant_or_self ctx)))"
| "select_nodes (Attribute a # ps) ctx = concat (map (attr_nodes a) ctx)"
| "select_nodes (AnyAttribute a # ps) ctx =
     concat (map (attr_nodes a) (concat (map descendant_or_self ctx)))"

text \<open>\<^verbatim>\<open>xmlquery.FindOne\<close>: the first selected node, nil when nothing is selected.\<close>

definition FindOne :: "xml \<Rightarrow> step list \<Rightarrow> xnode option" where
  "FindOne doc path = (case select_nodes path [doc] of [] \<Rightarrow> None | n # ns \<Rightarrow> Some n)"

text \<open>\<^verbatim>\<open>InnerText\<close>: the character data below a node, concatenated; an attribute's value.\<close>

fun text_of :: "xml \<Rightarrow> string" where
  "text_of (CharData s) = s"
| "text_of (Element t as cs) = concat (map text_of cs)"

fun InnerText :: "xnode \<Rightarrow> string" where
  "InnerText (TreeNode x) = text_of x"
| "InnerText (AttrNode k v) = v"

subsection \<open>The VoIP extractor\<close>

definition parsePrivateVoIP :: "xml_parser \<Rightarrow> WechatMessage \<Rightarrow> string" where
  "parsePrivateVoIP parse msg =
     (case parse (Message msg) of
        None \<Rightarrow> []
      | Some doc \<Rightarrow>
          (case (case FindOne doc [Child ''voipinvitemsg''] of
                   None \<Rightarrow> None
                 | Some inviteNode \<Rightarrow> FindOne doc [Child ''voipinvitemsg'', Child ''status'']) of
             Some statusNode \<Rightarrow>
               (if InnerText statusNode = ''1'' then ''VoIP: Started a call''
                else if InnerText statusNode = ''2'' then ''VoIP: Call ended''
                else ''VoIP: Unknown status '' @ InnerText statusNode)
           | None \<Rightarrow>
               (case FindOne doc [Child ''voipmsg''] of
                  None \<Rightarrow> []
                | Some bubbleNode \<Rightarrow>
                    (case FindOne doc [AnyChild ''msg''] of
                       None \<Rightarrow> []
                     | Some msgNode \<Rightarrow> ''VoIP: '' @ InnerText msgNode))))"

subsection \<open>Strings: \<^verbatim>\<open>strings.TrimSpace\<close> and \<^verbatim>\<open>strings.FieldsFunc\<close>\<close>

text \<open>
  \<^verbatim>\<open>TrimSpace\<close> removes leading and trailing Unicode white space. On the bytes of a
  string these are the UTF-8 encodings of the code points with the White_Space
  property: U+0009 to U+000D, U+0020, U+0085, U+00A0, U+1680, U+2000 to U+200A, U+2028,
  U+2029, U+202F, U+205F and U+3000. Any other byte sequence at either end (an invalid
  or overlong encoding too) decodes to a rune that is not a space and stops the trim.
\<close>

definition space_encodings :: "string list" where
  "space_encodings =
     map (\<lambda>b. [b]) [CHR 0x09, CHR 0x0A, CHR 0x0B, CHR 0x0C, CHR 0x0D, CHR 0x20] @
     [[CHR 0xC2, CHR 0x85], [CHR 0xC2, CHR 0xA0], [CHR 0xE1, CHR 0x9A, CHR 0x80]] @
     map (\<lambda>b. [CHR 0xE2, CHR 0x80, b])
       [CHR 0x80, CHR 0x81, CHR 0x82, CHR 0x83, CHR 0x84, CHR 0x85, CHR 0x86, CHR 0x87,
        CHR 0x88, CHR 0x89, CHR 0x8A, CHR 0xA8, CHR 0xA9, CHR 0xAF] @
     [[CHR 0xE2, CHR 0x81, CHR 0x9F], [CHR 0xE3, CHR 0x80, CHR 0x80]]"

lemma space_encodings_nonempty: "p \<in> set space_encodings \<Longrightarrow> p \<noteq> []"
  by (auto simp: space_encodings_def)

function TrimLeftSpace :: "string \<Rightarrow> string" where
  "TrimLeftSpace s =
     (case find (\<lambda>p. prefix p s) space_encodings of
        None \<Rightarrow> s
      | Some p \<Rightarrow> TrimLeftSpace (drop (length p) s))"
  by pat_completeness auto
termination
proof (relation "measure length")
  fix s p
  assume "find (\<lambda>p. prefix p s) space_encodings = Some p"
  then have "p \<in> set space_encodings" and "prefix p s"
    by (auto simp: find_Some_iff)
  then have "p \<noteq> []" and "length p \<le> length s"
    by (auto simp: space_encodings_nonempty prefix_length_le)
  then show "(drop (length p) s, s) \<in> measure length"
    by (cases p) auto
qed simp

function TrimRightSpace :: "string \<Rightarrow> string" where
  "TrimRightSpace s =
     (case find (\<lambda>p. suffix p s) space_encodings of
        None \<Rightarrow> s
      | Some p \<Rightarrow> TrimRightSpace (take (length s - length p) s))"
  by pat_completeness auto
termination
proof (relation "measure length")
  fix s p
  assume "find (\<lambda>p. suffix p s) space_encodings = Some p"
  then have "p \<in> set space_encodings" and "suffix p s"
    by (auto simp: find_Some_iff)
  then have "p \<noteq> []" and "length p \<le> length s"
    by (auto simp: space_encodings_nonempty suffix_length_le)
  then show "(take (length s - length p) s, s) \<in> measure length"
    by (cases p) auto
qed simp

definition TrimSpace :: "string \<Rightarrow> string" where
  "TrimSpace s = TrimRightSpace (TrimLeftSpace s)"

text \<open>
  \<^verbatim>\<open>FieldsFunc(s, f)\<close> splits \<open>s\<close> at every run of characters satisfying \<open>f\<close> and returns
  the non-empty pieces between the runs; the slice it returns is never nil. The
  separator test of \<^verbatim>\<open>getMentions\<close> is \<open>r == ','\<close>: a comma is one byte and no byte of a
  longer encoding equals it, so the test on bytes is the test on runes.
\<close>

function FieldsFunc :: "(char \<Rightarrow> bool) \<Rightarrow> string \<Rightarrow> string list" where
  "FieldsFunc f [] = []"
| "FieldsFunc f (c # cs) =
     (if f c then FieldsFunc f cs
      else (c # takeWhile (\<lambda>x. \<not> f x) cs) # FieldsFunc f (dropWhile (\<lambda>x. \<not> f x) cs))"
  by pat_completeness auto
termination
  by (relation "measure (\<lambda>(f, s). length s)") (auto simp: length_dropWhile_le less_Suc_eq_le)

subsection \<open>\<^verbatim>\<open>strconv.ParseUint(s, 10, 64)\<close>\<close>

text \<open>
  Decimal digits only (the bytes 48 to 57; no sign, no underscore), at least one, and
  a value below \<open>2^64\<close>; a syntax error and a range error are both \<^term>\<open>None\<close>.
\<close>

fun parse_digits :: "nat \<Rightarrow> string \<Rightarrow> nat option" where
  "parse_digits n [] = Some n"
| "parse_digits n (c # cs) =
     (if (48::nat) \<le> of_char c \<and> (of_char c :: nat) \<le> 57
      then (let n1 = n * 10 + (of_char c - 48)
            in if n1 \<ge> 2 ^ 64 then None else parse_digits n1 cs)
      else None)"

definition ParseUint :: "string \<Rightarrow> 64 word option" where
  "ParseUint s = (if s = [] then None else map_option word_of_nat (parse_digits 0 s))"

subsection \<open>The extractors for mentions, locations, replies and stickers\<close>

definition getMentions :: "xml_parser \<Rightarrow> WechatMessage \<Rightarrow> string list option" where
  "getMentions parse msg =
     (if length (ExtraInfo msg) = 0 then None
      else case parse (ExtraInfo msg) of
        None \<Rightarrow> None
      | Some doc \<Rightarrow>
          (case FindOne doc [Child ''msgsource'', Child ''atuserlist''] of
             None \<Rightarrow> None
           | Some atuserNode \<Rightarrow>
               if length (InnerText atuserNode) = 0 then None
               else Some (FieldsFunc (\<lambda>r. r = CHR '','') (TrimSpace (InnerText atuserNode)))))"

text \<open>
  \<^verbatim>\<open>strconv.ParseFloat(s, 64)\<close> is the parameter \<open>parseFloat\<close>, into any type \<open>'f\<close> of
  floating-point values; \<^term>\<open>None\<close> is its error result.
\<close>

definition parseLocation ::
    "xml_parser \<Rightarrow> (string \<Rightarrow> 'f option) \<Rightarrow> WechatMessage \<Rightarrow> 'f LocationData option" where
  "parseLocation parse parseFloat msg =
     (case parse (Message msg) of
        None \<Rightarrow> None
      | Some doc \<Rightarrow>
          (case FindOne doc [Child ''msg'', Child ''location'', Attribute ''x''] of
             None \<Rightarrow> None
           | Some latitudeNode \<Rightarrow>
               if length (InnerText latitudeNode) = 0 then None
               else (case parseFloat (InnerText latitudeNode) of
                  None \<Rightarrow> None
                | Some latitude \<Rightarrow>
                    (case FindOne doc [Child ''msg'', Child ''location'', Attribute ''y''] of
                       None \<Rightarrow> None
                     | Some longitudeNode \<Rightarrow>
                         if length (InnerText longitudeNode) = 0 then None
                         else (case parseFloat (InnerText longitudeNode) of
                            None \<Rightarrow> None
                          | Some longitude \<Rightarrow>
                              Some \<lparr> LocName =
                                       (case FindOne doc [Child ''msg'', Child ''location'',
                                                          Attribute ''poiname''] of
                                          None \<Rightarrow> [] | Some nameNode \<Rightarrow> InnerText nameNode),
                                     Address =
                                       (case FindOne doc [Child ''msg'', Child ''location'',
                                                          Attribute ''label''] of
                                          None \<Rightarrow> [] | Some labelNode \<Rightarrow> InnerText labelNode),
                                     Latitude = latitude,
                                     Longitude = longitude \<rparr>)))))"

text \<open>The result pair of \<^verbatim>\<open>parseReply\<close>: \<open>("", nil)\<close> is \<^term>\<open>None\<close>.\<close>

definition parseReply :: "xml_parser \<Rightarrow> WechatMessage \<Rightarrow> (string \<times> ReplyInfo) option" where
  "parseReply parse msg =
     (case parse (Message msg) of
        None \<Rightarrow> None
      | Some doc \<Rightarrow>
          (case FindOne doc [Child ''msg'', Child ''appmsg'', Child ''title''] of
             None \<Rightarrow> None
           | Some titleNode \<Rightarrow>
               if length (InnerText titleNode) = 0 then None
               else (case FindOne doc [Child ''msg'', Child ''appmsg'', Child ''refermsg'',
                                       Child ''svrid''] of
                  None \<Rightarrow> None
                | Some svridNode \<Rightarrow>
                    if length (InnerText svridNode) = 0 then None
                    else (case (case FindOne doc [Child ''msg'', Child ''appmsg'',
                                                  Child ''refermsg'', Child ''chatusr''] of
                                  None \<Rightarrow> None
                                | Some n \<Rightarrow> if length (InnerText n) = 0 then None else Some n) of
                            Some userNode \<Rightarrow>
                              (case ParseUint (InnerText svridNode) of
                                 None \<Rightarrow> None
                               | Some msgId \<Rightarrow>
                                   Some (InnerText titleNode,
                                         \<lparr> ID = msgId, Sender = InnerText userNode \<rparr>))
                          | None \<Rightarrow>
                              (case FindOne doc [Child ''msg'', Child ''appmsg'',
                                                 Child ''refermsg'', Child ''fromusr''] of
                                 None \<Rightarrow> None
                               | Some userNode \<Rightarrow>
                                   if length (InnerText userNode) = 0 then None
                                   else (case ParseUint (InnerText svridNode) of
                                      None \<Rightarrow> None
                                    | Some msgId \<Rightarrow>
                                        Some (InnerText titleNode,
                                              \<lparr> ID = msgId, Sender = InnerText userNode \<rparr>)))))))"

text \<open>
  \<^verbatim>\<open>GetBytes\<close> (one HTTP GET) is the parameter \<open>getBytes\<close>: the body, or \<^term>\<open>None\<close> on
  any transport error. The sticker resolver reads no file and has no deadline.
\<close>

definition downloadSticker ::
    "xml_parser \<Rightarrow> (string \<Rightarrow> byte list option) \<Rightarrow> WechatMessage \<Rightarrow> BlobData option" where
  "downloadSticker parse getBytes msg =
     (case parse (Message msg) of
        None \<Rightarrow> None
      | Some doc \<Rightarrow>
          (case FindOne doc [AnyAttribute ''cdnurl''] of
             None \<Rightarrow> None
           | Some urlNode \<Rightarrow>
               if length (InnerText urlNode) = 0 then None
               else (case FindOne doc [AnyAttribute ''aeskey''] of
                  None \<Rightarrow> None
                | Some hashNode \<Rightarrow>
                    if length (InnerText hashNode) = 0 then None
                    else (case getBytes (InnerText urlNode) of
                       Some data \<Rightarrow> Some \<lparr> Name = InnerText hashNode, Binary = data \<rparr>
                     | None \<Rightarrow> None))))"

subsection \<open>Paths: \<^verbatim>\<open>path/filepath\<close> on Windows and \<^verbatim>\<open>strings.TrimSuffix\<close>\<close>

text \<open>
  The agent is a Windows program (it reads the registry), so \<^verbatim>\<open>path/filepath\<close> works
  with the separator backslash and accepts the slash as well. The functions below
  follow the package: \<^verbatim>\<open>Ext\<close>, \<^verbatim>\<open>Base\<close>, \<^verbatim>\<open>Clean\<close> and \<^verbatim>\<open>Join\<close>, with volume names (a drive
  letter with its colon, or a UNC prefix of host and share).
\<close>

definition Separator :: char where
  "Separator = CHR 0x5C"

definition isSlash :: "char \<Rightarrow> bool" where
  "isSlash c = (c = CHR 0x5C \<or> c = CHR ''/'')"

text \<open>\<^verbatim>\<open>strings.Join\<close> with a one-character separator.\<close>

fun join_with :: "char \<Rightarrow> string list \<Rightarrow> string" where
  "join_with c [] = []"
| "join_with c [x] = x"
| "join_with c (x # y # ys) = x @ c # join_with c (y # ys)"

definition FromSlash :: "string \<Rightarrow> string" where
  "FromSlash path = map (\<lambda>c. if c = CHR ''/'' then Separator else c) path"

text \<open>
  \<^verbatim>\<open>Ext\<close> scans backwards from the end of the path, up to the last separator: at the
  first dot it returns the dot and what follows it, and the empty string if it meets
  no dot. The first argument is the path still to scan, reversed; the second is the
  part already passed.
\<close>

fun ext_scan :: "string \<Rightarrow> string \<Rightarrow> string" where
  "ext_scan [] passed = []"
| "ext_scan (c # cs) passed =
     (if isSlash c then []
      else if c = CHR ''.'' then c # passed
      else ext_scan cs (c # passed))"

definition Ext :: "string \<Rightarrow> string" where
  "Ext path = ext_scan (rev path) []"

definition TrimSuffix :: "string \<Rightarrow> string \<Rightarrow> string" where
  "TrimSuffix s suf = (if suffix suf s then take (length s - length suf) s else s)"

text \<open>
  The length of the leading volume name: 2 for a drive letter with its colon; for a UNC
  path (two slashes, a host name that does not start with a dot, one slash, a share
  name that does not start with a dot) the length up to the end of the share name;
  0 otherwise.
\<close>

definition isLetter :: "char \<Rightarrow> bool" where
  "isLetter c = (let n = (of_char c :: nat) in (97 \<le> n \<and> n \<le> 122) \<or> (65 \<le> n \<and> n \<le> 90))"

definition volumeNameLen :: "string \<Rightarrow> nat" where
  "volumeNameLen path =
     (if length path < 2 then 0
      else if path ! 1 = CHR '':'' \<and> isLetter (path ! 0) then 2
      else if 5 \<le> length path \<and> isSlash (path ! 0) \<and> isSlash (path ! 1)
              \<and> \<not> isSlash (path ! 2) \<and> path ! 2 \<noteq> CHR ''.''
      then (let n = 3 + length (takeWhile (\<lambda>c. \<not> isSlash c) (drop 3 path))
            in if length path - 1 \<le> n then 0
               else (let share = drop (Suc n) path
                     in if isSlash (hd share) \<or> hd share = CHR ''.'' then 0
                        else Suc n + length (takeWhile (\<lambda>c. \<not> isSlash c) share)))
      else 0)"

definition isUNC :: "string \<Rightarrow> bool" where
  "isUNC path = (2 < volumeNameLen path)"

text \<open>The elements of a path between its separators, empty ones included.\<close>

function split_elems :: "string \<Rightarrow> string list" where
  "split_elems s =
     (if s = [] then []
      else takeWhile (\<lambda>c. \<not> isSlash c) s #
           (case dropWhile (\<lambda>c. \<not> isSlash c) s of
              [] \<Rightarrow> []
            | c # r \<Rightarrow> split_elems r))"
  by pat_completeness auto
termination
proof (relation "measure length")
  fix s :: string and c r
  assume "dropWhile (\<lambda>c. \<not> isSlash c) s = c # r"
  then have "length (c # r) \<le> length s"
    using length_dropWhile_le [of "\<lambda>c. \<not> isSlash c" s] by simp
  then show "(r, s) \<in> measure length" by simp
qed simp

declare split_elems.simps [simp del]

text \<open>
  The lexical core of \<^verbatim>\<open>Clean\<close> on the elements: an empty element and a dot are
  dropped; a double dot removes the element before it, is dropped at the root of a
  rooted path, and is kept at the front of a path that is not rooted. The elements
  written so far are the second argument, last one first.
\<close>

fun clean_elems :: "bool \<Rightarrow> string list \<Rightarrow> string list \<Rightarrow> string list" where
  "clean_elems rooted out [] = rev out"
| "clean_elems rooted out (e # es) =
     (if e = [] \<or> e = ''.'' then clean_elems rooted out es
      else if e = ''..'' then
        (case out of
           prev # below \<Rightarrow>
             if prev \<noteq> ''..'' then clean_elems rooted below es
             else clean_elems rooted (e # out) es
         | [] \<Rightarrow>
             if rooted then clean_elems rooted out es
             else clean_elems rooted (e # out) es)
      else clean_elems rooted (e # out) es)"

definition Clean :: "string \<Rightarrow> string" where
  "Clean path =
     (let volLen = volumeNameLen path;
          rest = drop volLen path
      in if rest = []
         then (if 1 < volLen \<and> path ! 1 \<noteq> CHR '':'' then FromSlash path else path @ ''.'')
         else (let rooted = isSlash (hd rest);
                   body = (if rooted then [Separator] else []) @
                          join_with Separator (clean_elems rooted [] (split_elems rest))
               in FromSlash (take volLen path @ (if body = [] then ''.'' else body))))"

text \<open>
  \<^verbatim>\<open>Join\<close> skips leading empty elements, joins the rest with the separator and cleans
  the result. A first element that is a bare drive ("C:") stays relative to that drive,
  and joining elements of which the first is not a UNC path never makes a UNC path.
\<close>

definition joinNonEmpty :: "string list \<Rightarrow> string" where
  "joinNonEmpty elem =
     (if length (hd elem) = 2 \<and> hd elem ! 1 = CHR '':''
      then Clean (hd elem @ join_with Separator (dropWhile (\<lambda>e. e = []) (tl elem)))
      else (let p = Clean (join_with Separator elem)
            in if \<not> isUNC p then p
               else (let head = Clean (hd elem)
                     in if isUNC head then p
                        else (let tail = Clean (join_with Separator (tl elem))
                              in if last head = Separator then head @ tail
                                 else head @ Separator # tail))))"

definition Join :: "string list \<Rightarrow> string" where
  "Join elem =
     (case dropWhile (\<lambda>e. e = []) elem of
        [] \<Rightarrow> []
      | e # es \<Rightarrow> joinNonEmpty (e # es))"

text \<open>
  \<^verbatim>\<open>Base\<close>: the last element of the path, after trailing separators and the volume name
  are removed; "." for the empty path and a single separator for a path of separators.
\<close>

definition Base :: "string \<Rightarrow> string" where
  "Base path =
     (if path = [] then ''.''
      else (let p1 = rev (dropWhile isSlash (rev path));
                p2 = drop (volumeNameLen p1) p1;
                p3 = rev (takeWhile (\<lambda>c. \<not> isSlash c) (rev p2))
            in if p3 = [] then [Separator] else p3))"

subsection \<open>The file system and the clock\<close>

text \<open>
  What the resolvers observe of a path: \<^verbatim>\<open>os.Stat\<close> fails (\<open>Missing\<close>), the path exists
  but \<^verbatim>\<open>os.ReadFile\<close> fails, as for a directory or a file locked by its writer
  (\<open>Unreadable\<close>), or the file is read (\<open>Content\<close>). \<^verbatim>\<open>os.ReadFile\<close> returns a non-nil slice
  whenever it succeeds, also for an empty file, so nil data is the error case.
\<close>

datatype file_state = Missing | Unreadable | Content "byte list"

type_synonym filesystem = "string \<Rightarrow> file_state"

definition PathExists :: "filesystem \<Rightarrow> string \<Rightarrow> bool" where
  "PathExists fs path = (fs path \<noteq> Missing)"

fun read_state :: "file_state \<Rightarrow> byte list option" where
  "read_state (Content data) = Some data"
| "read_state Unreadable = None"
| "read_state Missing = None"

definition ReadFile :: "filesystem \<Rightarrow> string \<Rightarrow> byte list option" where
  "ReadFile fs path = read_state (fs path)"

text \<open>
  Time is counted in nanoseconds, as \<^verbatim>\<open>time.Duration\<close> does, from the moment the
  deadline context is created; a \<open>world\<close> gives the file system at every instant. The
  checks of one loop iteration take no time.
\<close>

type_synonym world = "nat \<Rightarrow> filesystem"

definition Second :: nat where
  "Second = 1000000000"

definition MediaDownloadTiemout :: nat where
  "MediaDownloadTiemout = 30 * Second"

text \<open>
  The loop that the four disk-backed resolvers share:
  \<^verbatim>\<open>for { <attempt>; select { case <-time.After(1 * time.Second): case <-ctx.Done(): return nil } }\<close>.
  An attempt that yields a blob returns it at once. Otherwise the \<^verbatim>\<open>select\<close> waits for
  the one-second timer or for the deadline of the context, whichever comes first; the
  deadline is at \<open>MediaDownloadTiemout\<close> after the start. When both fall on the same
  instant the runtime may take either branch: \<open>select_order\<close> says which. The result
  is paired with the instant of the return.
\<close>

datatype select_order = TimerFirst | DeadlineFirst

function poll :: "select_order \<Rightarrow> (nat \<Rightarrow> 'a option) \<Rightarrow> nat \<Rightarrow> 'a option \<times> nat" where
  "poll tie attempt now =
     (case attempt now of
        Some blob \<Rightarrow> (Some blob, now)
      | None \<Rightarrow>
          if now + Second < MediaDownloadTiemout
             \<or> (now + Second = MediaDownloadTiemout \<and> tie = TimerFirst)
          then poll tie attempt (now + Second)
          else (None, max now MediaDownloadTiemout))"
  by pat_completeness auto
termination
  by (relation "measure (\<lambda>(tie, attempt, now). MediaDownloadTiemout + Second - now)")
     (auto simp: Second_def MediaDownloadTiemout_def)

declare poll.simps [simp del]

subsection \<open>The disk-backed resolvers\<close>

definition downloadImage ::
    "select_order \<Rightarrow> world \<Rightarrow> AppService \<Rightarrow> WechatMessage \<Rightarrow> BlobData option \<times> nat" where
  "downloadImage tie world as msg =
     (let imageFile = Join [Workdir as, Self msg, Base (FilePath msg)];
          baseFile = TrimSuffix imageFile (Ext imageFile);
          pngFile = baseFile @ ''.png'';
          gifFile = baseFile @ ''.gif'';
          jpgFile = baseFile @ ''.jpg''
      in poll tie
           (\<lambda>now.
              case (if PathExists (world now) baseFile then ReadFile (world now) baseFile
                    else if PathExists (world now) pngFile then ReadFile (world now) pngFile
                    else if PathExists (world now) gifFile then ReadFile (world now) gifFile
                    else if PathExists (world now) jpgFile then ReadFile (world now) jpgFile
                    else None) of
                Some data \<Rightarrow> Some \<lparr> Name = Base (FilePath msg), Binary = data \<rparr>
              | None \<Rightarrow> None)
           0)"

definition downloadVoice ::
    "xml_parser \<Rightarrow> select_order \<Rightarrow> world \<Rightarrow> AppService \<Rightarrow> WechatMessage
       \<Rightarrow> BlobData option \<times> nat" where
  "downloadVoice parse tie world as msg =
     (case parse (Message msg) of
        None \<Rightarrow> (None, 0)
      | Some doc \<Rightarrow>
          (case FindOne doc [Child ''msg'', Child ''voicemsg'', Attribute ''clientmsgid''] of
             None \<Rightarrow> (None, 0)
           | Some node \<Rightarrow>
               if length (InnerText node) = 0 then (None, 0)
               else (let path = InnerText node;
                         voiceFile = Join [Workdir as, Self msg, path @ ''.amr'']
                     in poll tie
                          (\<lambda>now.
                             if PathExists (world now) voiceFile
                             then (case ReadFile (world now) voiceFile of
                                     Some data \<Rightarrow> Some \<lparr> Name = Base voiceFile, Binary = data \<rparr>
                                   | None \<Rightarrow> None)
                             else None)
                          0)))"

definition downloadVideo ::
    "select_order \<Rightarrow> world \<Rightarrow> AppService \<Rightarrow> WechatMessage \<Rightarrow> BlobData option \<times> nat" where
  "downloadVideo tie world as msg =
     (let videoFile =
            (if length (FilePath msg) > 0 then Join [Docdir as, FilePath msg]
             else (let thumb = Join [Docdir as, Thumbnail msg]
                   in TrimSuffix thumb (Ext thumb) @ ''.mp4''))
      in poll tie
           (\<lambda>now.
              if PathExists (world now) videoFile
              then (case ReadFile (world now) videoFile of
                      Some data \<Rightarrow> Some \<lparr> Name = Base videoFile, Binary = data \<rparr>
                    | None \<Rightarrow> None)
              else None)
           0)"

definition downloadFile ::
    "select_order \<Rightarrow> world \<Rightarrow> AppService \<Rightarrow> WechatMessage \<Rightarrow> BlobData option \<times> nat" where
  "downloadFile tie world as msg =
     (let file = Join [Docdir as, FilePath msg]
      in poll tie
           (\<lambda>now.
              if PathExists (world now) file
              then (case ReadFile (world now) file of
                      Some data \<Rightarrow> Some \<lparr> Name = Base file, Binary = data \<rparr>
                    | None \<Rightarrow> None)
              else None)
           0)"

subsection \<open>Blob persistence\<close>

text \<open>
  \<^verbatim>\<open>json.Unmarshal\<close> into a \<open>BlobData\<close> and \<^verbatim>\<open>md5.Sum\<close> are the parameters \<open>unmarshal\<close> and
  \<open>md5sum\<close>. \<^verbatim>\<open>fmt.Sprintf("%x", ...)\<close> of a byte array writes two lowercase hexadecimal
  digits for each byte. \<^verbatim>\<open>os.WriteFile\<close> fails where the environment does not let the
  path be written (\<open>writable\<close>) and otherwise stores the bytes at the path. The
  result of \<^verbatim>\<open>saveBlob\<close> is paired with the file system it leaves.
\<close>

record MatrixMessage =
  Data :: "byte list"

definition hex_alphabet :: string where
  "hex_alphabet = ''0123456789abcdef''"

definition hex_digit :: "nat \<Rightarrow> char" where
  "hex_digit n = hex_alphabet ! n"

definition hex_bytes :: "byte list \<Rightarrow> string" where
  "hex_bytes bs = concat (map (\<lambda>b. [hex_digit (unat b div 16), hex_digit (unat b mod 16)]) bs)"

definition WriteFile ::
    "(string \<Rightarrow> bool) \<Rightarrow> filesystem \<Rightarrow> string \<Rightarrow> byte list \<Rightarrow> filesystem option" where
  "WriteFile writable fs path data =
     (if writable path then Some (fs (path := Content data)) else None)"

definition saveBlob ::
    "(byte list \<Rightarrow> BlobData option) \<Rightarrow> (byte list \<Rightarrow> byte list) \<Rightarrow> (string \<Rightarrow> bool)
       \<Rightarrow> filesystem \<Rightarrow> AppService \<Rightarrow> MatrixMessage \<Rightarrow> string \<times> filesystem" where
  "saveBlob unmarshal md5sum writable fs as msg =
     (case unmarshal (Data msg) of
        None \<Rightarrow> ([], fs)
      | Some data \<Rightarrow>
          (let path = (if length (Name data) > 0 then Join [Workdir as, Name data]
                       else Join [Workdir as, hex_bytes (md5sum (Binary data))])
           in case WriteFile writable fs path (Binary data) of
                None \<Rightarrow> ([], fs)
              | Some fs' \<Rightarrow> (path, fs')))"

subsection \<open>Statement vocabulary and example payloads\<close>

text \<open>
  The text of the first node a path selects, empty when the path selects nothing: the
  extractors treat an absent field and one with empty text alike.
\<close>

definition field_text :: "xml \<Rightarrow> step list \<Rightarrow> string" where
  "field_text doc path = (case FindOne doc path of None \<Rightarrow> [] | Some n \<Rightarrow> InnerText n)"

text \<open>Identifiers written one after the other with a comma between neighbours.\<close>

definition join_commas :: "string list \<Rightarrow> string" where
  "join_commas ids = join_with (CHR '','') ids"

text \<open>A message whose two payload strings are both \<open>m\<close>, sent by \<open>me\<close>.\<close>

definition wmsg :: "string \<Rightarrow> WechatMessage" where
  "wmsg m = \<lparr> Self = ''me'', Message = m, ExtraInfo = m, FilePath = [], Thumbnail = [] \<rparr>"

definition voip_doc :: "string \<Rightarrow> xml" where
  "voip_doc c =
     Element [] [] [Element ''voipinvitemsg'' [] [Element ''status'' [] [CharData c]]]"

definition mention_doc :: "string \<Rightarrow> xml" where
  "mention_doc t =
     Element [] [] [Element ''msgsource'' [] [Element ''atuserlist'' [] [CharData t]]]"

definition reply_doc :: xml where
  "reply_doc =
     Element [] [] [Element ''msg'' [] [Element ''appmsg'' []
       [Element ''title'' [] [CharData ''Hello''],
        Element ''refermsg'' []
          [Element ''svrid'' [] [CharData ''12345''],
           Element ''chatusr'' [] [CharData ''alice'']]]]]"

definition location_doc :: xml where
  "location_doc =
     Element [] [] [Element ''msg'' []
       [Element ''location'' [(''x'', ''39.5''), (''y'', ''116.25''), (''label'', ''Beijing'')] []]]"

definition float_table :: "string \<Rightarrow> real option" where
  "float_table = [''39.5'' \<mapsto> 39.5, ''116.25'' \<mapsto> 116.25]"

definition sticker_doc :: xml where
  "sticker_doc =
     Element [] [] [Element ''msg'' []
       [Element ''emoji'' [(''cdnurl'', ''http://x/y.png''), (''aeskey'', ''deadbeef'')] []]]"

text \<open>
  The paths that the switch of \<^verbatim>\<open>downloadImage\<close> tests, in the order of its cases.
\<close>

definition imageCandidates :: "AppService \<Rightarrow> WechatMessage \<Rightarrow> string list" where
  "imageCandidates as msg =
     (let imageFile = Join [Workdir as, Self msg, Base (FilePath msg)];
          baseFile = TrimSuffix imageFile (Ext imageFile)
      in [baseFile, baseFile @ ''.png'', baseFile @ ''.gif'', baseFile @ ''.jpg''])"



text \<open>
  An agent with the working directory "work" and the document directory "docs"; an
  image message and a file message; a world in which the listed paths hold the given
  bytes from the instant \<open>t0\<close> on and nothing else ever exists.
\<close>

definition agent :: AppService where
  "agent = \<lparr> Workdir = ''work'', Docdir = ''docs'' \<rparr>"

definition image_msg :: WechatMessage where
  "image_msg = \<lparr> Self = ''me'', Message = [], ExtraInfo = [],
                 FilePath = ''FileStorage/Image/abc.dat'', Thumbnail = [] \<rparr>"

definition file_msg :: WechatMessage where
  "file_msg = \<lparr> Self = ''me'', Message = [], ExtraInfo = [],
                FilePath = ''report.pdf'', Thumbnail = [] \<rparr>"

text \<open>A voice message with the client message ID 4152, and a video known by its thumbnail.\<close>

definition voice_doc :: xml where
  "voice_doc = Element [] [] [Element ''msg'' [] [Element ''voicemsg'' [(''clientmsgid'', ''4152'')] []]]"

definition video_msg :: WechatMessage where
  "video_msg = \<lparr> Self = ''me'', Message = [], ExtraInfo = [],
                 FilePath = [], Thumbnail = ''video/clip.jpg'' \<rparr>"

definition appears_at :: "nat \<Rightarrow> string list \<Rightarrow> byte list \<Rightarrow> world" where
  "appears_at t0 paths data =
     (\<lambda>t p. if p \<in> set paths \<and> t0 \<le> t then Content data else Missing)"

text \<open>
  A decoder that maps the one-byte message to the given blob, and a stand-in for the
  digest function.
\<close>

definition decoded :: "BlobData \<Rightarrow> byte list \<Rightarrow> BlobData option" where
  "decoded blob = [[1] \<mapsto> blob]"

definition digest_stub :: "byte list \<Rightarrow> byte list" where
  "digest_stub bs = [0xd4, 0x1d, 0x8c, 0xd9]"

section \<open>Properties of the extractors\<close>

subsection \<open>Queries\<close>

lemma first_node_defined:
  "(case ns of [] \<Rightarrow> None | n # ms \<Rightarrow> Some n) \<noteq> None \<longleftrightarrow> ns \<noteq> []"
  by (cases ns) simp_all

lemma FindOne_parent:
  "FindOne doc [Child a, Child b] = Some n \<Longrightarrow> FindOne doc [Child a] \<noteq> None"
  by (cases doc) (auto simp: FindOne_def split: list.splits)

text \<open>
  \<^verbatim>\<open>//@a\<close> finds an attribute wherever an element of the document carries it.
\<close>

lemma AnyAttribute_anywhere:
  "FindOne doc [AnyAttribute a] \<noteq> None \<longleftrightarrow>
     (\<exists>e \<in> set (descendant_or_self doc). attr_nodes a e \<noteq> [])"
proof -
  have "FindOne doc [AnyAttribute a] \<noteq> None \<longleftrightarrow>
          concat (map (attr_nodes a) (descendant_or_self doc)) \<noteq> []"
    unfolding FindOne_def first_node_defined by simp
  then show ?thesis by auto
qed

text \<open>A payload that does not parse gives no match in any extractor.\<close>

lemma extractors_parse_error:
  assumes "parse (Message msg) = None"
  shows "parsePrivateVoIP parse msg = []" and "parseReply parse msg = None"
    and "parseLocation parse parseFloat msg = None"
    and "downloadSticker parse getBytes msg = None"
    and "downloadVoice parse tie world as msg = (None, 0)"
  using assms
  by (simp_all add: parsePrivateVoIP_def parseReply_def parseLocation_def downloadSticker_def
      downloadVoice_def)

subsection \<open>VoIP status strings\<close>

lemma parsePrivateVoIP_invite:
  assumes "parse (Message msg) = Some doc"
    and "FindOne doc [Child ''voipinvitemsg'', Child ''status''] = Some statusNode"
  shows "parsePrivateVoIP parse msg =
     (if InnerText statusNode = ''1'' then ''VoIP: Started a call''
      else if InnerText statusNode = ''2'' then ''VoIP: Call ended''
      else ''VoIP: Unknown status '' @ InnerText statusNode)"
proof -
  from assms(2) obtain inviteNode where "FindOne doc [Child ''voipinvitemsg''] = Some inviteNode"
    using FindOne_parent by fastforce
  with assms show ?thesis
    unfolding parsePrivateVoIP_def by simp
qed

text \<open>
  Claim C6. For a payload that parses and has a status node below the invitation node:
  status text "1" gives exactly "VoIP: Started a call", status text "2" gives exactly
  "VoIP: Call ended", and any other status text gives "VoIP: Unknown status " followed
  by that text, so the result contains the raw code verbatim.
\<close>

theorem parsePrivateVoIP_status_strings:
  assumes "parse (Message msg) = Some doc"
    and "FindOne doc [Child ''voipinvitemsg'', Child ''status''] = Some statusNode"
  shows "(InnerText statusNode = ''1'' \<longrightarrow> parsePrivateVoIP parse msg = ''VoIP: Started a call'')
       \<and> (InnerText statusNode = ''2'' \<longrightarrow> parsePrivateVoIP parse msg = ''VoIP: Call ended'')
       \<and> (InnerText statusNode \<noteq> ''1'' \<and> InnerText statusNode \<noteq> ''2'' \<longrightarrow>
            parsePrivateVoIP parse msg = ''VoIP: Unknown status '' @ InnerText statusNode
            \<and> sublist (InnerText statusNode) (parsePrivateVoIP parse msg))"
proof -
  have "suffix c (''VoIP: Unknown status '' @ c)" for c :: string
    by (rule suffixI) (rule refl)
  then have "sublist c (''VoIP: Unknown status '' @ c)" for c :: string
    by (rule suffix_imp_sublist)
  then show ?thesis
    using parsePrivateVoIP_invite [of parse msg doc statusNode] assms by simp
qed

text \<open>The three cases at the status texts "1", "2" and "17".\<close>

theorem parsePrivateVoIP_status_strings_witness:
  "parsePrivateVoIP [''<v/>'' \<mapsto> voip_doc ''1''] (wmsg ''<v/>'') = ''VoIP: Started a call''
   \<and> parsePrivateVoIP [''<v/>'' \<mapsto> voip_doc ''2''] (wmsg ''<v/>'') = ''VoIP: Call ended''
   \<and> parsePrivateVoIP [''<v/>'' \<mapsto> voip_doc ''17''] (wmsg ''<v/>'') = ''VoIP: Unknown status 17''"
proof -
  have p: "[''<v/>'' \<mapsto> d] (Message (wmsg ''<v/>'')) = Some d" for d :: xml
    by (simp add: wmsg_def)
  have f: "FindOne (voip_doc c) [Child ''voipinvitemsg'', Child ''status'']
             = Some (TreeNode (Element ''status'' [] [CharData c]))" for c
    by (simp add: voip_doc_def FindOne_def)
  show ?thesis
    using parsePrivateVoIP_status_strings
            [where parse = "[''<v/>'' \<mapsto> voip_doc ''1'']" and doc = "voip_doc ''1''", OF p f]
          parsePrivateVoIP_status_strings
            [where parse = "[''<v/>'' \<mapsto> voip_doc ''2'']" and doc = "voip_doc ''2''", OF p f]
          parsePrivateVoIP_status_strings
            [where parse = "[''<v/>'' \<mapsto> voip_doc ''17'']" and doc = "voip_doc ''17''", OF p f]
    by simp
qed

subsection \<open>Replies\<close>

lemma ParseUint_Nil: "ParseUint [] = None"
  by (simp add: ParseUint_def)

text \<open>
  Claim C5. For a payload that parses, reply extraction returns a record if and only if
  the title is non-empty, the referenced-message ID parses as a base-10 unsigned 64-bit
  number, and the primary sender field (chatusr) or else the fallback sender field
  (fromusr) is non-empty; leaving out any one of the three gives no match. The record
  holds the title, the parsed ID and the sender, the primary field when it is non-empty.
\<close>

theorem parseReply_match_iff:
  assumes "parse (Message msg) = Some doc"
  defines "title \<equiv> field_text doc [Child ''msg'', Child ''appmsg'', Child ''title'']"
    and "svrid \<equiv>
          field_text doc [Child ''msg'', Child ''appmsg'', Child ''refermsg'', Child ''svrid'']"
    and "chatusr \<equiv>
          field_text doc [Child ''msg'', Child ''appmsg'', Child ''refermsg'', Child ''chatusr'']"
    and "fromusr \<equiv>
          field_text doc [Child ''msg'', Child ''appmsg'', Child ''refermsg'', Child ''fromusr'']"
  shows "(parseReply parse msg \<noteq> None \<longleftrightarrow>
            title \<noteq> [] \<and> ParseUint svrid \<noteq> None \<and> (chatusr \<noteq> [] \<or> fromusr \<noteq> []))
       \<and> (\<forall>t r. parseReply parse msg = Some (t, r) \<longrightarrow>
            t = title \<and> ParseUint svrid = Some (ID r)
            \<and> Sender r = (if chatusr \<noteq> [] then chatusr else fromusr))"
  using assms(1) unfolding title_def svrid_def chatusr_def fromusr_def
  by (auto simp: parseReply_def field_text_def ParseUint_Nil split: option.splits if_splits)

text \<open>
  The payload
  \<^verbatim>\<open><msg><appmsg><title>Hello</title><refermsg><svrid>12345</svrid><chatusr>alice</chatusr></refermsg></appmsg></msg>\<close>
  gives the title "Hello" and the reply record (12345, "alice").
\<close>

theorem parseReply_match_iff_witness:
  "parseReply [''<reply/>'' \<mapsto> reply_doc] (wmsg ''<reply/>'')
     = Some (''Hello'', \<lparr> ID = 12345, Sender = ''alice'' \<rparr>)"
proof -
  let ?parse = "[''<reply/>'' \<mapsto> reply_doc]"
  have p: "?parse (Message (wmsg ''<reply/>'')) = Some reply_doc"
    by (simp add: wmsg_def)
  note iff = parseReply_match_iff [of ?parse "wmsg ''<reply/>''" reply_doc, OF p]
  have "parseReply ?parse (wmsg ''<reply/>'') \<noteq> None"
    using iff by (simp add: field_text_def FindOne_def reply_doc_def ParseUint_def)
  then obtain t r where tr: "parseReply ?parse (wmsg ''<reply/>'') = Some (t, r)"
    by auto
  with iff have "t = ''Hello'' \<and> Some (12345 :: 64 word) = Some (ID r) \<and> Sender r = ''alice''"
    by (simp add: field_text_def FindOne_def reply_doc_def ParseUint_def)
  with tr show ?thesis by (cases r) simp
qed

subsection \<open>Locations\<close>

text \<open>
  Claim C4. For a payload that parses: when the x and the y attribute of the location
  element are both non-empty and both parse as floating point, extraction returns the
  record whose latitude and longitude are exactly the two parsed values, with the name
  and the label empty when their attributes are absent; when x or y is absent, empty or
  does not parse, extraction returns no record at all.
\<close>

theorem parseLocation_round_trip:
  assumes "parse (Message msg) = Some doc"
  defines "x \<equiv> field_text doc [Child ''msg'', Child ''location'', Attribute ''x'']"
    and "y \<equiv> field_text doc [Child ''msg'', Child ''location'', Attribute ''y'']"
  shows "(x \<noteq> [] \<and> y \<noteq> [] \<and> parseFloat x = Some a \<and> parseFloat y = Some b \<longrightarrow>
            parseLocation parse parseFloat msg =
              Some \<lparr> LocName =
                       field_text doc [Child ''msg'', Child ''location'', Attribute ''poiname''],
                     Address =
                       field_text doc [Child ''msg'', Child ''location'', Attribute ''label''],
                     Latitude = a, Longitude = b \<rparr>)
       \<and> (x = [] \<or> y = [] \<or> parseFloat x = None \<or> parseFloat y = None \<longrightarrow>
            parseLocation parse parseFloat msg = None)"
  using assms(1) unfolding x_def y_def
  by (auto simp: parseLocation_def field_text_def split: option.splits if_splits)

text \<open>
  A location with x = "39.5", y = "116.25" and a label but no name; the same payload
  under a number parser that rejects every text.
\<close>

theorem parseLocation_round_trip_witness:
  "parseLocation [''<loc/>'' \<mapsto> location_doc] float_table (wmsg ''<loc/>'')
     = Some \<lparr> LocName = [], Address = ''Beijing'', Latitude = 39.5, Longitude = 116.25 \<rparr>
   \<and> parseLocation [''<loc/>'' \<mapsto> location_doc] Map.empty (wmsg ''<loc/>'')
     = (None :: real LocationData option)"
proof -
  let ?parse = "[''<loc/>'' \<mapsto> location_doc]"
  have p: "?parse (Message (wmsg ''<loc/>'')) = Some location_doc"
    by (simp add: wmsg_def)
  show ?thesis
    using parseLocation_round_trip
            [of ?parse "wmsg ''<loc/>''" location_doc float_table "39.5" "116.25", OF p]
          parseLocation_round_trip
            [of ?parse "wmsg ''<loc/>''" location_doc "Map.empty :: string \<Rightarrow> real option", OF p]
    by (simp add: field_text_def FindOne_def location_doc_def float_table_def)
qed

subsection \<open>Stickers\<close>

text \<open>
  Claim C7. For a sticker payload that parses, with url the first cdnurl attribute and
  hash the first aeskey attribute found anywhere in the tree: when both are non-empty
  the result is decided by the remote fetch of url alone (no file is read, no polling):
  the blob named hash with the fetched bytes, nothing when the fetch fails; when either
  attribute is absent or empty there is no match.
\<close>

theorem downloadSticker_remote_fetch:
  assumes "parse (Message msg) = Some doc"
  defines "url \<equiv> field_text doc [AnyAttribute ''cdnurl'']"
    and "hash \<equiv> field_text doc [AnyAttribute ''aeskey'']"
  shows "downloadSticker parse getBytes msg =
           (if url \<noteq> [] \<and> hash \<noteq> []
            then map_option (\<lambda>data. \<lparr> Name = hash, Binary = data \<rparr>) (getBytes url)
            else None)"
  using assms(1) unfolding url_def hash_def
  by (auto simp: downloadSticker_def field_text_def split: option.splits if_splits)

text \<open>
  A sticker with cdnurl "http://x/y.png" and aeskey "deadbeef" on a nested element, and
  a network that serves three bytes at that address.
\<close>

theorem downloadSticker_remote_fetch_witness:
  "downloadSticker [''<sticker/>'' \<mapsto> sticker_doc] [''http://x/y.png'' \<mapsto> [1, 2, 3]]
       (wmsg ''<sticker/>'')
     = Some \<lparr> Name = ''deadbeef'', Binary = [1, 2, 3] \<rparr>"
proof -
  let ?parse = "[''<sticker/>'' \<mapsto> sticker_doc]"
  have p: "?parse (Message (wmsg ''<sticker/>'')) = Some sticker_doc"
    by (simp add: wmsg_def)
  show ?thesis
    using downloadSticker_remote_fetch [of ?parse "wmsg ''<sticker/>''" sticker_doc, OF p]
    by (simp add: field_text_def FindOne_def sticker_doc_def)
qed

subsection \<open>Mentions\<close>

text \<open>A field followed by nothing or by a separator is split off as it is.\<close>

lemma FieldsFunc_field:
  assumes "i \<noteq> []" and "\<forall>c\<in>set i. \<not> f c" and "rest = [] \<or> f (hd rest)"
  shows "FieldsFunc f (i @ rest) = i # FieldsFunc f rest"
proof -
  from assms(1) obtain c cs where i: "i = c # cs" by (cases i) auto
  with assms(2) have c: "\<not> f c" and cs: "\<forall>x\<in>set cs. \<not> f x" by auto
  from assms(3) have t: "takeWhile (\<lambda>x. \<not> f x) rest = []"
    and d: "dropWhile (\<lambda>x. \<not> f x) rest = rest"
    by (cases rest; auto)+
  from cs have "takeWhile (\<lambda>x. \<not> f x) (cs @ rest) = cs @ takeWhile (\<lambda>x. \<not> f x) rest"
    and "dropWhile (\<lambda>x. \<not> f x) (cs @ rest) = dropWhile (\<lambda>x. \<not> f x) rest"
    by simp_all
  with c t d show ?thesis by (simp add: i)
qed

lemma FieldsFunc_join_with:
  assumes "\<forall>i\<in>set ids. i \<noteq> [] \<and> c \<notin> set i"
  shows "FieldsFunc (\<lambda>r. r = c) (join_with c ids) = ids"
  using assms
proof (induction c ids rule: join_with.induct)
  case (1 c)
  then show ?case by simp
next
  case (2 c x)
  then have "FieldsFunc (\<lambda>r. r = c) (x @ []) = x # FieldsFunc (\<lambda>r. r = c) []"
    by (intro FieldsFunc_field) auto
  then show ?case by simp
next
  case (3 c x y ys)
  then have "FieldsFunc (\<lambda>r. r = c) (x @ c # join_with c (y # ys))
      = x # FieldsFunc (\<lambda>r. r = c) (c # join_with c (y # ys))"
    by (intro FieldsFunc_field) auto
  with 3 show ?case by simp
qed

lemma join_with_nonempty: "ids \<noteq> [] \<Longrightarrow> \<forall>i\<in>set ids. i \<noteq> [] \<Longrightarrow> join_with c ids \<noteq> []"
  by (cases "(c, ids)" rule: join_with.cases) auto

lemma TrimSpace_Nil: "TrimSpace [] = []"
  by (simp add: TrimSpace_def space_encodings_def)

text \<open>
  Claim C1, as the code has it. When the extra info parses and the text of its
  mention-list node, trimmed of white space at its two ends, is N non-empty comma-free
  identifiers joined by commas (N at least 1), extraction returns exactly these N
  identifiers in their order. When the mention-list field is absent or empty, and also
  when there is no extra info or it does not parse, extraction returns nil. Only the
  text as a whole is trimmed.
\<close>

theorem getMentions_split_identifiers:
  "(ExtraInfo msg \<noteq> [] \<and> parse (ExtraInfo msg) = Some doc
      \<and> FindOne doc [Child ''msgsource'', Child ''atuserlist''] = Some n
      \<and> TrimSpace (InnerText n) = join_commas ids \<and> ids \<noteq> []
      \<and> (\<forall>i\<in>set ids. i \<noteq> [] \<and> CHR '','' \<notin> set i)
    \<longrightarrow> getMentions parse msg = Some ids)
   \<and> (parse (ExtraInfo msg) = Some doc
      \<and> field_text doc [Child ''msgsource'', Child ''atuserlist''] = []
    \<longrightarrow> getMentions parse msg = None)
   \<and> (ExtraInfo msg = [] \<or> parse (ExtraInfo msg) = None \<longrightarrow> getMentions parse msg = None)"
proof (intro conjI impI)
  assume a: "ExtraInfo msg \<noteq> [] \<and> parse (ExtraInfo msg) = Some doc
      \<and> FindOne doc [Child ''msgsource'', Child ''atuserlist''] = Some n
      \<and> TrimSpace (InnerText n) = join_commas ids \<and> ids \<noteq> []
      \<and> (\<forall>i\<in>set ids. i \<noteq> [] \<and> CHR '','' \<notin> set i)"
  then have "join_commas ids \<noteq> []"
    by (simp add: join_commas_def join_with_nonempty)
  with a have ne: "InnerText n \<noteq> []"
    using TrimSpace_Nil by auto
  from a have "FieldsFunc (\<lambda>r. r = CHR '','') (TrimSpace (InnerText n)) = ids"
    by (simp add: join_commas_def FieldsFunc_join_with)
  with a ne show "getMentions parse msg = Some ids"
    by (simp add: getMentions_def)
next
  assume "parse (ExtraInfo msg) = Some doc
      \<and> field_text doc [Child ''msgsource'', Child ''atuserlist''] = []"
  then show "getMentions parse msg = None"
    by (auto simp: getMentions_def field_text_def split: option.splits)
next
  assume "ExtraInfo msg = [] \<or> parse (ExtraInfo msg) = None"
  then show "getMentions parse msg = None"
    by (auto simp: getMentions_def)
qed

text \<open>
  The node text " wxid_a,wxid_b " gives the two identifiers; an empty node gives nil,
  and so does a message without extra info.
\<close>

theorem getMentions_split_identifiers_witness:
  "getMentions [''<m/>'' \<mapsto> mention_doc '' wxid_a,wxid_b ''] (wmsg ''<m/>'')
     = Some [''wxid_a'', ''wxid_b'']
   \<and> getMentions [''<m/>'' \<mapsto> mention_doc []] (wmsg ''<m/>'') = None
   \<and> getMentions [''<m/>'' \<mapsto> mention_doc ''wxid_a''] (wmsg []) = None"
proof -
  have t: "TrimSpace '' wxid_a,wxid_b '' = ''wxid_a,wxid_b''"
    by (simp add: TrimSpace_def space_encodings_def suffix_to_prefix)
  show ?thesis
    using getMentions_split_identifiers
            [where parse = "[''<m/>'' \<mapsto> mention_doc '' wxid_a,wxid_b '']"
               and msg = "wmsg ''<m/>''"
               and doc = "mention_doc '' wxid_a,wxid_b ''"
               and n = "TreeNode (Element ''atuserlist'' [] [CharData '' wxid_a,wxid_b ''])"
               and ids = "[''wxid_a'', ''wxid_b'']"]
          getMentions_split_identifiers
            [where parse = "[''<m/>'' \<mapsto> mention_doc []]" and msg = "wmsg ''<m/>''"
               and doc = "mention_doc []"]
          getMentions_split_identifiers
            [where parse = "[''<m/>'' \<mapsto> mention_doc ''wxid_a'']" and msg = "wmsg []"]
    by (simp add: field_text_def FindOne_def mention_doc_def t join_commas_def wmsg_def)
qed

text \<open>
  The claim as the specification words it has every returned identifier trimmed. The
  node text "a, b" is the identifiers "a" and " b" joined by a comma; the second one
  comes back with its leading blank, not trimmed.
\<close>

theorem getMentions_inner_space_counterexample:
  "getMentions [''<m/>'' \<mapsto> mention_doc (join_commas [''a'', '' b''])] (wmsg ''<m/>'')
     = Some [''a'', '' b'']
   \<and> getMentions [''<m/>'' \<mapsto> mention_doc (join_commas [''a'', '' b''])] (wmsg ''<m/>'')
     \<noteq> Some (map TrimSpace [''a'', '' b''])"
  by (simp add: getMentions_def wmsg_def mention_doc_def FindOne_def TrimSpace_def
      space_encodings_def suffix_to_prefix join_commas_def)

text \<open>
  A mention list that holds only blanks and commas is not empty, so it is not answered
  with nil: the split of its trimmed text is an empty sequence.
\<close>

lemma getMentions_blank_text:
  "getMentions [''<m/>'' \<mapsto> mention_doc '' , ''] (wmsg ''<m/>'') = Some []"
  by (simp add: getMentions_def wmsg_def mention_doc_def FindOne_def TrimSpace_def
      space_encodings_def suffix_to_prefix)

section \<open>Properties of the disk-backed resolvers\<close>

subsection \<open>The polling loop\<close>

lemma poll_found_now: "attempt now = Some r \<Longrightarrow> poll tie attempt now = (Some r, now)"
  by (simp add: poll.simps)

lemma poll_wait:
  "attempt now = None \<Longrightarrow>
   poll tie attempt now =
     (if now + Second < MediaDownloadTiemout
         \<or> (now + Second = MediaDownloadTiemout \<and> tie = TimerFirst)
      then poll tie attempt (now + Second)
      else (None, max now MediaDownloadTiemout))"
  by (subst poll.simps) simp

text \<open>A blob that the loop returns is the one its attempt produced at the instant of return.\<close>

lemma poll_result_attempt:
  "poll tie attempt now = (Some r, t) \<Longrightarrow> attempt t = Some r \<and> now \<le> t"
proof (induction tie attempt now rule: poll.induct)
  case (1 tie attempt now)
  show ?case
  proof (cases "attempt now")
    case (Some b)
    with "1.prems" show ?thesis by (simp add: poll_found_now)
  next
    case None
    show ?thesis
    proof (cases "now + Second < MediaDownloadTiemout
             \<or> (now + Second = MediaDownloadTiemout \<and> tie = TimerFirst)")
      case True
      with None "1.prems" have "poll tie attempt (now + Second) = (Some r, t)"
        by (simp add: poll_wait)
      with "1.IH" [OF None True] show ?thesis by simp
    next
      case False
      with None "1.prems" show ?thesis by (simp add: poll_wait)
    qed
  qed
qed


lemma poll_at_deadline:
  assumes "attempt (30 * Second) = None"
  shows "poll tie attempt (30 * Second) = (None, MediaDownloadTiemout)"
proof -
  have "\<not> (30 * Second + Second < MediaDownloadTiemout
            \<or> (30 * Second + Second = MediaDownloadTiemout \<and> tie = TimerFirst))"
    and "max (30 * Second) MediaDownloadTiemout = MediaDownloadTiemout"
    by (simp_all add: MediaDownloadTiemout_def Second_def)
  then show ?thesis
    using poll_wait [of attempt "30 * Second" tie] assms by presburger
qed

text \<open>
  The attempts are made at the instants 0, 1, ..., 29 seconds, and once more at 30
  seconds if the timer wins against the deadline there. If none of them yields a
  blob the loop reports nothing, at the deadline.
\<close>

lemma poll_never_ready:
  assumes "\<forall>j\<le>29. attempt (j * Second) = None"
    and "tie = TimerFirst \<longrightarrow> attempt (30 * Second) = None"
    and "k \<le> 29"
  shows "poll tie attempt (k * Second) = (None, MediaDownloadTiemout)"
  using assms(3)
proof (induction "29 - k" arbitrary: k)
  case 0
  then have k: "k = 29" by simp
  with assms(1) have none: "attempt (29 * Second) = None" by simp
  have sum: "29 * Second + Second = MediaDownloadTiemout"
    and later: "max (29 * Second) MediaDownloadTiemout = MediaDownloadTiemout"
    and last: "MediaDownloadTiemout = 30 * Second"
    by (simp_all add: MediaDownloadTiemout_def Second_def)
  show ?case
  proof (cases tie)
    case TimerFirst
    with assms(2) have "poll tie attempt (30 * Second) = (None, MediaDownloadTiemout)"
      by (simp add: poll_at_deadline)
    with TimerFirst show ?thesis
      using poll_wait [of attempt "29 * Second" tie] none sum last unfolding k by simp
  next
    case DeadlineFirst
    then show ?thesis
      using poll_wait [of attempt "29 * Second" tie] none sum later unfolding k by simp
  qed
next
  case (Suc n)
  then have k: "k < 29" by simp
  with assms(1) have none: "attempt (k * Second) = None" by simp
  from Suc k have "n = 29 - Suc k" and "Suc k \<le> 29" by simp_all
  then have IH: "poll tie attempt (Suc k * Second) = (None, MediaDownloadTiemout)"
    by (rule Suc.hyps(1))
  have next_poll: "k * Second + Second = Suc k * Second" by simp
  from k have "Suc k * Second < MediaDownloadTiemout"
    by (simp add: MediaDownloadTiemout_def Second_def)
  with IH show ?case
    using poll_wait [of attempt "k * Second" tie] none unfolding next_poll by presburger
qed

lemma poll_always_none:
  "(\<And>t. attempt t = None) \<Longrightarrow> poll tie attempt 0 = (None, MediaDownloadTiemout)"
  using poll_never_ready [of attempt tie 0] by simp


subsection \<open>Reading a candidate\<close>

lemma read_existing:
  "(if PathExists fs p
    then (case ReadFile fs p of Some data \<Rightarrow> Some (f data) | None \<Rightarrow> None)
    else None)
   = (case fs p of Content data \<Rightarrow> Some (f data) | Unreadable \<Rightarrow> None | Missing \<Rightarrow> None)"
  by (cases "fs p") (simp_all add: PathExists_def ReadFile_def)

lemma first_existing_read:
  "(case (if PathExists fs a then ReadFile fs a
          else if PathExists fs b then ReadFile fs b
          else if PathExists fs c then ReadFile fs c
          else if PathExists fs d then ReadFile fs d
          else None) of
      Some data \<Rightarrow> Some (f data)
    | None \<Rightarrow> None)
   = (case find (PathExists fs) [a, b, c, d] of
        None \<Rightarrow> None
      | Some p \<Rightarrow> map_option f (ReadFile fs p))"
  by (auto split: option.splits)


lemma downloadImage_poll:
  "downloadImage tie world as msg =
     poll tie
       (\<lambda>now. case find (PathExists (world now)) (imageCandidates as msg) of
                 None \<Rightarrow> None
               | Some p \<Rightarrow>
                   map_option (\<lambda>data. \<lparr> Name = Base (FilePath msg), Binary = data \<rparr>)
                     (ReadFile (world now) p))
       0"
  unfolding downloadImage_def imageCandidates_def Let_def first_existing_read
  by (rule refl)

subsection \<open>Extensions\<close>

lemma ext_scan_suffix: "suffix (ext_scan cs passed) (rev cs @ passed)"
proof (induction cs passed rule: ext_scan.induct)
  case (1 passed)
  then show ?case by simp
next
  case (2 c cs passed)
  show ?case
  proof (cases "isSlash c")
    case True
    then show ?thesis by simp
  next
    case False
    show ?thesis
    proof (cases "c = CHR ''.''")
      case True
      with False have "ext_scan (c # cs) passed = c # passed" by simp
      then show ?thesis by (simp add: suffix_def)
    next
      case nodot: False
      with False 2 show ?thesis by simp
    qed
  qed
qed

lemma Ext_suffix: "suffix (Ext path) path"
  using ext_scan_suffix [of "rev path" "[]"] by (simp add: Ext_def)

lemma take_suffix: "suffix s p \<Longrightarrow> take (length p - length s) p @ s = p"
proof -
  assume "suffix s p"
  then obtain zs where "p = zs @ s" by (auto simp: suffix_def)
  then show ?thesis by simp
qed

lemma TrimSuffix_Ext: "TrimSuffix path (Ext path) @ Ext path = path"
  by (simp add: TrimSuffix_def Ext_suffix take_suffix)

subsection \<open>Evaluating paths\<close>

lemmas path_eval = Join_def joinNonEmpty_def Clean_def volumeNameLen_def isSlash_def
  isLetter_def isUNC_def FromSlash_def Separator_def Base_def Ext_def TrimSuffix_def
  suffix_to_prefix split_elems.simps

lemma image_msg_candidates:
  "imageCandidates agent image_msg =
     [join_with Separator [''work'', ''me'', ''abc''],
      join_with Separator [''work'', ''me'', ''abc.png''],
      join_with Separator [''work'', ''me'', ''abc.gif''],
      join_with Separator [''work'', ''me'', ''abc.jpg'']]"
  by (simp add: imageCandidates_def agent_def image_msg_def path_eval)

lemma image_msg_hint:
  "Join [Workdir agent, Self image_msg, Base (FilePath image_msg)]
     = join_with Separator [''work'', ''me'', ''abc.dat'']"
  by (simp add: agent_def image_msg_def path_eval)

subsection \<open>The candidates of an image\<close>

text \<open>
  Claim C2, as the code has it. On every poll iteration the image resolver reads the
  first existing path of one fixed list of four candidates. The list is made from the
  hinted file's base name placed in the per-sender working directory: first that path
  with its extension removed, then the same path with ".png", ".gif" and ".jpg" put
  in place of the extension, in this order.
\<close>

theorem downloadImage_candidate_order:
  "downloadImage tie world as msg =
     poll tie
       (\<lambda>now. case find (PathExists (world now)) (imageCandidates as msg) of
                 None \<Rightarrow> None
               | Some p \<Rightarrow>
                   map_option (\<lambda>data. \<lparr> Name = Base (FilePath msg), Binary = data \<rparr>)
                     (ReadFile (world now) p))
       0
   \<and> (\<exists>stem. stem @ Ext (Join [Workdir as, Self msg, Base (FilePath msg)])
                 = Join [Workdir as, Self msg, Base (FilePath msg)]
        \<and> imageCandidates as msg = [stem, stem @ ''.png'', stem @ ''.gif'', stem @ ''.jpg''])"
proof
  show "downloadImage tie world as msg =
     poll tie
       (\<lambda>now. case find (PathExists (world now)) (imageCandidates as msg) of
                 None \<Rightarrow> None
               | Some p \<Rightarrow>
                   map_option (\<lambda>data. \<lparr> Name = Base (FilePath msg), Binary = data \<rparr>)
                     (ReadFile (world now) p))
       0"
    by (rule downloadImage_poll)
next
  show "\<exists>stem. stem @ Ext (Join [Workdir as, Self msg, Base (FilePath msg)])
                 = Join [Workdir as, Self msg, Base (FilePath msg)]
        \<and> imageCandidates as msg = [stem, stem @ ''.png'', stem @ ''.gif'', stem @ ''.jpg'']"
    unfolding imageCandidates_def Let_def
    using TrimSuffix_Ext by blast
qed

text \<open>
  The hint "FileStorage/Image/abc.dat" for the sender "me" in the working directory
  "work": the four candidates are abc, abc.png, abc.gif and abc.jpg in work\me. The
  hinted path is not among them, neither verbatim nor placed in the working directory,
  so an image that exists under both of these paths from the start is never read and
  the resolver gives up at the deadline.
\<close>

theorem downloadImage_hint_counterexample:
  "FilePath image_msg = ''FileStorage/Image/abc.dat''
   \<and> Join [Workdir agent, Self image_msg, Base (FilePath image_msg)]
       = join_with Separator [''work'', ''me'', ''abc.dat'']
   \<and> imageCandidates agent image_msg =
       [join_with Separator [''work'', ''me'', ''abc''],
        join_with Separator [''work'', ''me'', ''abc.png''],
        join_with Separator [''work'', ''me'', ''abc.gif''],
        join_with Separator [''work'', ''me'', ''abc.jpg'']]
   \<and> downloadImage DeadlineFirst
        (appears_at 0 [''FileStorage/Image/abc.dat'',
                       join_with Separator [''work'', ''me'', ''abc.dat'']] [1])
        agent image_msg = (None, MediaDownloadTiemout)"
proof (intro conjI)
  let ?w = "appears_at 0 [''FileStorage/Image/abc.dat'',
                       join_with Separator [''work'', ''me'', ''abc.dat'']] [1]"
  have "find (PathExists (?w t)) (imageCandidates agent image_msg) = None" for t
    unfolding image_msg_candidates
    by (simp add: PathExists_def appears_at_def Separator_def)
  then show "downloadImage DeadlineFirst ?w agent image_msg = (None, MediaDownloadTiemout)"
    using downloadImage_poll [of DeadlineFirst ?w agent image_msg]
    by (simp add: poll_always_none)
qed (simp_all only: image_msg_candidates image_msg_hint, simp add: image_msg_def)

subsection \<open>The deadline\<close>



subsection \<open>The file fetch at concrete instants\<close>

lemma file_msg_path: "Join [Docdir agent, FilePath file_msg] = join_with Separator [''docs'', ''report.pdf'']"
  by (simp add: agent_def file_msg_def path_eval)

lemma file_msg_base: "Base (join_with Separator [''docs'', ''report.pdf'']) = ''report.pdf''"
  by (simp add: path_eval)



subsection \<open>The name of the blob\<close>

lemma single_candidate_result:
  assumes "poll tie
             (\<lambda>now. if PathExists (world now) p
                    then (case ReadFile (world now) p of
                            Some data \<Rightarrow> Some \<lparr> Name = n, Binary = data \<rparr>
                          | None \<Rightarrow> None)
                    else None)
             0 = (Some blob, t)"
  shows "Name blob = n \<and> world t p = Content (Binary blob)"
proof -
  from poll_result_attempt [OF assms]
  have "(case world t p of Content data \<Rightarrow> Some \<lparr> Name = n, Binary = data \<rparr>
         | Unreadable \<Rightarrow> None | Missing \<Rightarrow> None) = Some blob"
    by (simp add: read_existing)
  then show ?thesis
    by (cases "world t p") auto
qed

lemma image_candidate_result:
  assumes "downloadImage tie world as msg = (Some blob, t)"
  shows "Name blob = Base (FilePath msg)
       \<and> (\<exists>p. find (PathExists (world t)) (imageCandidates as msg) = Some p
              \<and> world t p = Content (Binary blob))"
proof -
  from assms have "poll tie
       (\<lambda>now. case find (PathExists (world now)) (imageCandidates as msg) of
                 None \<Rightarrow> None
               | Some p \<Rightarrow>
                   map_option (\<lambda>data. \<lparr> Name = Base (FilePath msg), Binary = data \<rparr>)
                     (ReadFile (world now) p))
       0 = (Some blob, t)"
    by (simp only: downloadImage_poll)
  from poll_result_attempt [OF this]
  obtain p data where "find (PathExists (world t)) (imageCandidates as msg) = Some p"
    and "ReadFile (world t) p = Some data"
    and "blob = \<lparr> Name = Base (FilePath msg), Binary = data \<rparr>"
    by (auto split: option.splits)
  moreover from this have "world t p = Content data"
    by (cases "world t p") (simp_all add: ReadFile_def)
  ultimately show ?thesis by simp
qed

text \<open>
  Claim C3, as the code has it. Whenever a disk-backed acquisition succeeds, the bytes
  of the blob are those of the winning candidate at the instant of return. For voice,
  video and generic files the candidate is a single path and the blob's name is the
  base name of that path. For images the winning candidate is the first existing one
  of the four, and the blob's name is the base name of the hinted file path, whichever
  candidate won.
\<close>

theorem download_blob_name:
  "(downloadImage tie world as msg = (Some blob, t) \<longrightarrow>
      Name blob = Base (FilePath msg)
      \<and> (\<exists>p. find (PathExists (world t)) (imageCandidates as msg) = Some p
             \<and> world t p = Content (Binary blob)))
   \<and> (downloadVoice parse tie world as msg = (Some blob, t) \<longrightarrow>
      (\<exists>doc. parse (Message msg) = Some doc
         \<and> (let voiceFile = Join [Workdir as, Self msg,
                                  field_text doc [Child ''msg'', Child ''voicemsg'',
                                                  Attribute ''clientmsgid''] @ ''.amr'']
            in Name blob = Base voiceFile \<and> world t voiceFile = Content (Binary blob))))
   \<and> (downloadVideo tie world as msg = (Some blob, t) \<longrightarrow>
      (let videoFile =
             (if length (FilePath msg) > 0 then Join [Docdir as, FilePath msg]
              else TrimSuffix (Join [Docdir as, Thumbnail msg])
                     (Ext (Join [Docdir as, Thumbnail msg])) @ ''.mp4'')
       in Name blob = Base videoFile \<and> world t videoFile = Content (Binary blob)))
   \<and> (downloadFile tie world as msg = (Some blob, t) \<longrightarrow>
      Name blob = Base (Join [Docdir as, FilePath msg])
      \<and> world t (Join [Docdir as, FilePath msg]) = Content (Binary blob))"
proof -
  have image: "downloadImage tie world as msg = (Some blob, t) \<longrightarrow>
      Name blob = Base (FilePath msg)
      \<and> (\<exists>p. find (PathExists (world t)) (imageCandidates as msg) = Some p
             \<and> world t p = Content (Binary blob))"
    by (intro impI) (rule image_candidate_result)
  have voice: "downloadVoice parse tie world as msg = (Some blob, t) \<longrightarrow>
      (\<exists>doc. parse (Message msg) = Some doc
         \<and> (let voiceFile = Join [Workdir as, Self msg,
                                  field_text doc [Child ''msg'', Child ''voicemsg'',
                                                  Attribute ''clientmsgid''] @ ''.amr'']
            in Name blob = Base voiceFile \<and> world t voiceFile = Content (Binary blob)))"
  proof
    assume v: "downloadVoice parse tie world as msg = (Some blob, t)"
    then obtain doc where doc: "parse (Message msg) = Some doc"
      by (cases "parse (Message msg)") (simp_all add: downloadVoice_def)
    with v obtain node
      where node: "FindOne doc [Child ''msg'', Child ''voicemsg'', Attribute ''clientmsgid'']
                     = Some node"
      by (cases "FindOne doc [Child ''msg'', Child ''voicemsg'', Attribute ''clientmsgid'']")
         (simp_all add: downloadVoice_def)
    with v doc have ne: "InnerText node \<noteq> []"
      by (auto simp: downloadVoice_def)
    from node
    have ft: "field_text doc [Child ''msg'', Child ''voicemsg'', Attribute ''clientmsgid'']
                = InnerText node"
      by (simp add: field_text_def)
    let ?voiceFile = "Join [Workdir as, Self msg, InnerText node @ ''.amr'']"
    from v doc node ne
    have "Name blob = Base ?voiceFile \<and> world t ?voiceFile = Content (Binary blob)"
      by (intro single_candidate_result [of tie world ?voiceFile "Base ?voiceFile" blob t])
         (simp add: downloadVoice_def Let_def)
    with doc ft show "\<exists>doc. parse (Message msg) = Some doc
         \<and> (let voiceFile = Join [Workdir as, Self msg,
                                  field_text doc [Child ''msg'', Child ''voicemsg'',
                                                  Attribute ''clientmsgid''] @ ''.amr'']
            in Name blob = Base voiceFile \<and> world t voiceFile = Content (Binary blob))"
      by (simp add: Let_def)
  qed
  have video: "downloadVideo tie world as msg = (Some blob, t) \<longrightarrow>
      (let videoFile =
             (if length (FilePath msg) > 0 then Join [Docdir as, FilePath msg]
              else TrimSuffix (Join [Docdir as, Thumbnail msg])
                     (Ext (Join [Docdir as, Thumbnail msg])) @ ''.mp4'')
       in Name blob = Base videoFile \<and> world t videoFile = Content (Binary blob))"
  proof
    assume "downloadVideo tie world as msg = (Some blob, t)"
    from single_candidate_result [OF this [unfolded downloadVideo_def Let_def]]
    show "let videoFile =
             (if length (FilePath msg) > 0 then Join [Docdir as, FilePath msg]
              else TrimSuffix (Join [Docdir as, Thumbnail msg])
                     (Ext (Join [Docdir as, Thumbnail msg])) @ ''.mp4'')
       in Name blob = Base videoFile \<and> world t videoFile = Content (Binary blob)"
      unfolding Let_def .
  qed
  have generic: "downloadFile tie world as msg = (Some blob, t) \<longrightarrow>
      Name blob = Base (Join [Docdir as, FilePath msg])
      \<and> world t (Join [Docdir as, FilePath msg]) = Content (Binary blob)"
    by (intro impI single_candidate_result [of tie world _ _ blob t])
       (simp add: downloadFile_def Let_def)
  show ?thesis
    by (rule conjI [OF image conjI [OF voice conjI [OF video generic]]])
qed

text \<open>The image message when only the png candidate exists.\<close>

lemma png_base: "Base (join_with Separator [''work'', ''me'', ''abc.png'']) = ''abc.png''"
  "Base (FilePath image_msg) = ''abc.dat''"
  by (simp_all add: path_eval image_msg_def)

lemma png_first:
  "find (PathExists (appears_at 0 [join_with Separator [''work'', ''me'', ''abc.png'']] [7] t))
     (imageCandidates agent image_msg) = Some (join_with Separator [''work'', ''me'', ''abc.png''])"
  unfolding image_msg_candidates
  by (simp add: PathExists_def appears_at_def Separator_def)

lemma png_download:
  "downloadImage TimerFirst (appears_at 0 [join_with Separator [''work'', ''me'', ''abc.png'']] [7])
      agent image_msg
     = (Some \<lparr> Name = Base (FilePath image_msg), Binary = [7] \<rparr>, 0)"
  unfolding downloadImage_poll
  by (rule poll_found_now) (simp only: png_first, simp add: ReadFile_def appears_at_def)

text \<open>
  The claim as the specification words it names every blob after the winning candidate.
  For the hint "FileStorage/Image/abc.dat", when only work\me\abc.png exists the image
  resolver returns its bytes under the name "abc.dat", while the base name of the
  winning candidate is "abc.png".
\<close>

theorem downloadImage_name_counterexample:
  "downloadImage TimerFirst (appears_at 0 [join_with Separator [''work'', ''me'', ''abc.png'']] [7])
      agent image_msg
     = (Some \<lparr> Name = ''abc.dat'', Binary = [7] \<rparr>, 0)
   \<and> find (PathExists (appears_at 0 [join_with Separator [''work'', ''me'', ''abc.png'']] [7] 0))
        (imageCandidates agent image_msg)
     = Some (join_with Separator [''work'', ''me'', ''abc.png''])
   \<and> Base (join_with Separator [''work'', ''me'', ''abc.png'']) = ''abc.png''"
  using png_download png_first [of 0] png_base by simp

text \<open>The voice, video and file resolvers when their candidate is on disk from the start.\<close>

lemma voice_path:
  "Join [Workdir agent, Self (wmsg ''<voice/>''),
         field_text voice_doc [Child ''msg'', Child ''voicemsg'', Attribute ''clientmsgid''] @ ''.amr'']
     = join_with Separator [''work'', ''me'', ''4152.amr'']"
  "Base (join_with Separator [''work'', ''me'', ''4152.amr'']) = ''4152.amr''"
  by (simp_all add: agent_def wmsg_def voice_doc_def field_text_def FindOne_def path_eval)

lemma video_path:
  "(if length (FilePath video_msg) > 0 then Join [Docdir agent, FilePath video_msg]
    else TrimSuffix (Join [Docdir agent, Thumbnail video_msg])
           (Ext (Join [Docdir agent, Thumbnail video_msg])) @ ''.mp4'')
     = join_with Separator [''docs'', ''video'', ''clip.mp4'']"
  "Base (join_with Separator [''docs'', ''video'', ''clip.mp4'']) = ''clip.mp4''"
  by (simp_all add: agent_def video_msg_def path_eval)

lemma voice_download:
  "downloadVoice [''<voice/>'' \<mapsto> voice_doc] TimerFirst
      (appears_at 0 [join_with Separator [''work'', ''me'', ''4152.amr'']] [7]) agent
      (wmsg ''<voice/>'')
     = (Some \<lparr> Name = ''4152.amr'', Binary = [7] \<rparr>, 0)"
proof -
  have f: "FindOne voice_doc [Child ''msg'', Child ''voicemsg'', Attribute ''clientmsgid'']
             = Some (AttrNode ''clientmsgid'' ''4152'')"
    by (simp add: voice_doc_def FindOne_def)
  have j: "Join [Workdir agent, Self (wmsg ''<voice/>''), ''4152'' @ ''.amr'']
             = join_with Separator [''work'', ''me'', ''4152.amr'']"
    by (simp add: agent_def wmsg_def path_eval)
  have "downloadVoice [''<voice/>'' \<mapsto> voice_doc] TimerFirst
      (appears_at 0 [join_with Separator [''work'', ''me'', ''4152.amr'']] [7]) agent
      (wmsg ''<voice/>'')
     = poll TimerFirst
         (\<lambda>now. if PathExists (appears_at 0 [join_with Separator [''work'', ''me'', ''4152.amr'']] [7] now)
                      (join_with Separator [''work'', ''me'', ''4152.amr''])
                then (case ReadFile (appears_at 0 [join_with Separator [''work'', ''me'', ''4152.amr'']] [7] now)
                             (join_with Separator [''work'', ''me'', ''4152.amr'']) of
                        Some data \<Rightarrow> Some \<lparr> Name = Base (join_with Separator [''work'', ''me'', ''4152.amr'']), Binary = data \<rparr>
                      | None \<Rightarrow> None)
                else None) 0"
    unfolding downloadVoice_def Let_def
    by (simp only: wmsg_def WechatMessage.simps fun_upd_same option.case f InnerText.simps j [unfolded wmsg_def WechatMessage.simps])
       simp
  also have "\<dots> = (Some \<lparr> Name = ''4152.amr'', Binary = [7] \<rparr>, 0)"
    by (rule poll_found_now) (simp add: PathExists_def ReadFile_def appears_at_def path_eval)
  finally show ?thesis .
qed

lemma video_download:
  "downloadVideo TimerFirst
      (appears_at 0 [join_with Separator [''docs'', ''video'', ''clip.mp4'']] [7]) agent video_msg
     = (Some \<lparr> Name = ''clip.mp4'', Binary = [7] \<rparr>, 0)"
  unfolding downloadVideo_def Let_def video_path [unfolded Let_def]
  by (rule poll_found_now) (simp add: PathExists_def ReadFile_def appears_at_def path_eval)

lemma file_download:
  "downloadFile TimerFirst
      (appears_at 0 [join_with Separator [''docs'', ''report.pdf'']] [7]) agent file_msg
     = (Some \<lparr> Name = ''report.pdf'', Binary = [7] \<rparr>, 0)"
  unfolding downloadFile_def Let_def file_msg_path
  by (rule poll_found_now) (simp add: PathExists_def ReadFile_def appears_at_def path_eval)

text \<open>
  Each of the four resolvers at a candidate that is on disk from the start: the image
  is named after the hint, the others after their candidate.
\<close>

theorem download_blob_name_witness:
  "(\<exists>blob t. downloadImage TimerFirst
                (appears_at 0 [join_with Separator [''work'', ''me'', ''abc.png'']] [7])
                agent image_msg = (Some blob, t)
          \<and> Name blob = ''abc.dat'' \<and> Binary blob = [7])
   \<and> (\<exists>blob t. downloadVoice [''<voice/>'' \<mapsto> voice_doc] TimerFirst
                (appears_at 0 [join_with Separator [''work'', ''me'', ''4152.amr'']] [7])
                agent (wmsg ''<voice/>'') = (Some blob, t)
          \<and> Name blob = ''4152.amr'' \<and> Binary blob = [7])
   \<and> (\<exists>blob t. downloadVideo TimerFirst
                (appears_at 0 [join_with Separator [''docs'', ''video'', ''clip.mp4'']] [7])
                agent video_msg = (Some blob, t)
          \<and> Name blob = ''clip.mp4'' \<and> Binary blob = [7])
   \<and> (\<exists>blob t. downloadFile TimerFirst
                (appears_at 0 [join_with Separator [''docs'', ''report.pdf'']] [7])
                agent file_msg = (Some blob, t)
          \<and> Name blob = ''report.pdf'' \<and> Binary blob = [7])"
proof (intro conjI)
  let ?png = "join_with Separator [''work'', ''me'', ''abc.png'']"
  let ?amr = "join_with Separator [''work'', ''me'', ''4152.amr'']"
  let ?mp4 = "join_with Separator [''docs'', ''video'', ''clip.mp4'']"
  let ?pdf = "join_with Separator [''docs'', ''report.pdf'']"
  note named = download_blob_name
  show "\<exists>blob t. downloadImage TimerFirst (appears_at 0 [?png] [7]) agent image_msg = (Some blob, t)
          \<and> Name blob = ''abc.dat'' \<and> Binary blob = [7]"
  proof -
    from png_download obtain blob t
      where r: "downloadImage TimerFirst (appears_at 0 [?png] [7]) agent image_msg = (Some blob, t)"
      by blast
    with named [of TimerFirst "appears_at 0 [?png] [7]" agent image_msg blob t]
    have "Name blob = Base (FilePath image_msg)" by blast
    moreover from r png_download have "Binary blob = [7]" by simp
    ultimately show ?thesis using r png_base by auto
  qed
  show "\<exists>blob t. downloadVoice [''<voice/>'' \<mapsto> voice_doc] TimerFirst (appears_at 0 [?amr] [7])
                agent (wmsg ''<voice/>'') = (Some blob, t)
          \<and> Name blob = ''4152.amr'' \<and> Binary blob = [7]"
  proof -
    from voice_download obtain blob t
      where r: "downloadVoice [''<voice/>'' \<mapsto> voice_doc] TimerFirst (appears_at 0 [?amr] [7])
                agent (wmsg ''<voice/>'') = (Some blob, t)"
      by blast
    with named [of TimerFirst "appears_at 0 [?amr] [7]" agent "wmsg ''<voice/>''" blob t
                "[''<voice/>'' \<mapsto> voice_doc]"]
    obtain doc where "[''<voice/>'' \<mapsto> voice_doc] (Message (wmsg ''<voice/>'')) = Some doc"
      and n: "Name blob = Base (Join [Workdir agent, Self (wmsg ''<voice/>''),
                field_text doc [Child ''msg'', Child ''voicemsg'', Attribute ''clientmsgid''] @ ''.amr''])"
      unfolding Let_def by blast
    then have "doc = voice_doc" by (simp add: wmsg_def)
    with n have "Name blob = ''4152.amr''"
      by (simp only: voice_path)
    moreover from r voice_download have "Binary blob = [7]" by simp
    ultimately show ?thesis using r by auto
  qed
  show "\<exists>blob t. downloadVideo TimerFirst (appears_at 0 [?mp4] [7]) agent video_msg = (Some blob, t)
          \<and> Name blob = ''clip.mp4'' \<and> Binary blob = [7]"
  proof -
    from video_download obtain blob t
      where r: "downloadVideo TimerFirst (appears_at 0 [?mp4] [7]) agent video_msg = (Some blob, t)"
      by blast
    with named [of TimerFirst "appears_at 0 [?mp4] [7]" agent video_msg blob t]
    have "Name blob = Base ?mp4"
      unfolding Let_def video_path by blast
    moreover from r video_download have "Binary blob = [7]" by simp
    ultimately show ?thesis using r video_path by auto
  qed
  show "\<exists>blob t. downloadFile TimerFirst (appears_at 0 [?pdf] [7]) agent file_msg = (Some blob, t)
          \<and> Name blob = ''report.pdf'' \<and> Binary blob = [7]"
  proof -
    from file_download obtain blob t
      where r: "downloadFile TimerFirst (appears_at 0 [?pdf] [7]) agent file_msg = (Some blob, t)"
      by blast
    with named [of TimerFirst "appears_at 0 [?pdf] [7]" agent file_msg blob t]
    have "Name blob = Base ?pdf"
      unfolding file_msg_path by blast
    moreover from r file_download have "Binary blob = [7]" by simp
    ultimately show ?thesis using r file_msg_base by auto
  qed
qed

section \<open>Properties of blob persistence\<close>

subsection \<open>A name that starts with a double dot\<close>








subsection \<open>Hexadecimal names\<close>

lemma hex_digit_lower: "n < 16 \<Longrightarrow> hex_digit n \<in> set hex_alphabet"
  unfolding hex_digit_def by (rule nth_mem) (simp add: hex_alphabet_def)

lemma hex_bytes_length: "length (hex_bytes bs) = 2 * length bs"
  by (induction bs) (simp_all add: hex_bytes_def)

lemma hex_bytes_lower: "set (hex_bytes bs) \<subseteq> set hex_alphabet"
proof
  fix c
  assume "c \<in> set (hex_bytes bs)"
  then obtain b :: byte where "c = hex_digit (unat b div 16) \<or> c = hex_digit (unat b mod 16)"
    by (auto simp: hex_bytes_def)
  moreover have "unat b div 16 < 16"
    using unsigned_less [of b, where 'a = nat] by (simp add: less_mult_imp_div_less)
  moreover have "unat b mod 16 < 16" by simp
  ultimately show "c \<in> set hex_alphabet"
    using hex_digit_lower by blast
qed

subsection \<open>The target path\<close>

lemma saveBlob_path:
  assumes "unmarshal (Data msg) = Some blob"
  shows "saveBlob unmarshal md5sum writable fs as msg =
     (let path = Join [Workdir as, if Name blob = [] then hex_bytes (md5sum (Binary blob)) else Name blob]
      in if writable path then (path, fs (path := Content (Binary blob))) else ([], fs))"
  using assms by (simp add: saveBlob_def WriteFile_def Let_def)

text \<open>
  Claim C9. For a message that decodes to a blob: with an empty name the file is
  written to the working directory under the hexadecimal rendering of the content
  hash, two lowercase digits for each byte of the digest, so two blobs with the same
  bytes and empty names get the same path, whatever the state of the file system; with
  a non-empty name the file is written under that name, whatever the content; and when
  the write fails the result is the empty string and the file system is unchanged.
\<close>

theorem saveBlob_naming:
  fixes md5sum :: "byte list \<Rightarrow> byte list"
  assumes "unmarshal (Data msg) = Some blob"
  defines "hashName \<equiv> hex_bytes (md5sum (Binary blob))"
  shows "(Name blob = [] \<and> writable (Join [Workdir as, hashName]) \<longrightarrow>
            fst (saveBlob unmarshal md5sum writable fs as msg) = Join [Workdir as, hashName])
       \<and> (Name blob \<noteq> [] \<and> writable (Join [Workdir as, Name blob]) \<longrightarrow>
            fst (saveBlob unmarshal md5sum writable fs as msg) = Join [Workdir as, Name blob])
       \<and> (\<not> writable (Join [Workdir as, if Name blob = [] then hashName else Name blob]) \<longrightarrow>
            saveBlob unmarshal md5sum writable fs as msg = ([], fs))
       \<and> length hashName = 2 * length (md5sum (Binary blob))
       \<and> set hashName \<subseteq> set hex_alphabet
       \<and> (\<forall>msg' blob' fs'.
            unmarshal (Data msg') = Some blob' \<and> Name blob = [] \<and> Name blob' = []
            \<and> Binary blob' = Binary blob \<longrightarrow>
            fst (saveBlob unmarshal md5sum writable fs' as msg')
              = fst (saveBlob unmarshal md5sum writable fs as msg))"
proof -
  have gen: "fst (saveBlob unmarshal md5sum writable fs' as m) =
     (if writable (Join [Workdir as, if Name b = [] then hex_bytes (md5sum (Binary b)) else Name b])
      then Join [Workdir as, if Name b = [] then hex_bytes (md5sum (Binary b)) else Name b]
      else [])"
    if "unmarshal (Data m) = Some b" for m b fs'
    using saveBlob_path [of unmarshal m b md5sum writable fs' as] that by (simp add: Let_def)
  have c1: "Name blob = [] \<and> writable (Join [Workdir as, hex_bytes (md5sum (Binary blob))]) \<longrightarrow>
            fst (saveBlob unmarshal md5sum writable fs as msg)
              = Join [Workdir as, hex_bytes (md5sum (Binary blob))]"
    using gen [OF assms(1), of fs] by simp
  have c2: "Name blob \<noteq> [] \<and> writable (Join [Workdir as, Name blob]) \<longrightarrow>
            fst (saveBlob unmarshal md5sum writable fs as msg) = Join [Workdir as, Name blob]"
    using gen [OF assms(1), of fs] by simp
  have c3: "\<not> writable (Join [Workdir as, if Name blob = [] then hex_bytes (md5sum (Binary blob))
                                          else Name blob]) \<longrightarrow>
            saveBlob unmarshal md5sum writable fs as msg = ([], fs)"
    using saveBlob_path [of unmarshal msg blob md5sum writable fs as] assms(1)
    by (simp add: Let_def)
  have c6: "\<forall>msg' blob' fs'.
            unmarshal (Data msg') = Some blob' \<and> Name blob = [] \<and> Name blob' = []
            \<and> Binary blob' = Binary blob \<longrightarrow>
            fst (saveBlob unmarshal md5sum writable fs' as msg')
              = fst (saveBlob unmarshal md5sum writable fs as msg)"
  proof (intro allI impI)
    fix msg' :: MatrixMessage and blob' :: BlobData and fs' :: filesystem
    assume a: "unmarshal (Data msg') = Some blob' \<and> Name blob = [] \<and> Name blob' = []
            \<and> Binary blob' = Binary blob"
    then have "unmarshal (Data msg') = Some blob'" by simp
    from gen [OF this, of fs'] gen [OF assms(1), of fs] a
    show "fst (saveBlob unmarshal md5sum writable fs' as msg')
              = fst (saveBlob unmarshal md5sum writable fs as msg)"
      by simp
  qed
  from c1 c2 c3 c6 show ?thesis
    unfolding hashName_def
    using hex_bytes_length [of "md5sum (Binary blob)"] hex_bytes_lower [of "md5sum (Binary blob)"]
    by blast
qed


subsection \<open>Persistence at concrete blobs\<close>

lemma stub_paths:
  "Join [Workdir agent, hex_bytes (digest_stub [7])] = join_with Separator [''work'', ''d41d8cd9'']"
  "Join [Workdir agent, ''photo.jpg''] = join_with Separator [''work'', ''photo.jpg'']"
  "Join [Workdir agent, ''../x''] = ''x''"
  "Join [Workdir agent, ''a/../x''] = join_with Separator [''work'', ''x'']"
  by (simp_all add: agent_def path_eval hex_bytes_def digest_stub_def hex_digit_def
      hex_alphabet_def)

text \<open>
  An unnamed blob, saved once and then once more on the file system the first save
  left; a blob named "photo.jpg"; and the same blob when the write fails.
\<close>

theorem saveBlob_naming_witness:
  "fst (saveBlob (decoded \<lparr> Name = [], Binary = [7] \<rparr>) digest_stub (\<lambda>p. True)
          (\<lambda>p. Missing) agent \<lparr> Data = [1] \<rparr>)
     = join_with Separator [''work'', ''d41d8cd9'']
   \<and> fst (saveBlob (decoded \<lparr> Name = [], Binary = [7] \<rparr>) digest_stub (\<lambda>p. True)
          (snd (saveBlob (decoded \<lparr> Name = [], Binary = [7] \<rparr>) digest_stub (\<lambda>p. True)
                  (\<lambda>p. Missing) agent \<lparr> Data = [1] \<rparr>))
          agent \<lparr> Data = [1] \<rparr>)
     = join_with Separator [''work'', ''d41d8cd9'']
   \<and> fst (saveBlob (decoded \<lparr> Name = ''photo.jpg'', Binary = [7] \<rparr>) digest_stub (\<lambda>p. True)
          (\<lambda>p. Missing) agent \<lparr> Data = [1] \<rparr>)
     = join_with Separator [''work'', ''photo.jpg'']
   \<and> saveBlob (decoded \<lparr> Name = ''photo.jpg'', Binary = [7] \<rparr>) digest_stub (\<lambda>p. False)
          (\<lambda>p. Missing) agent \<lparr> Data = [1] \<rparr>
     = ([], \<lambda>p. Missing)"
proof (intro conjI)
  have d: "decoded b (Data \<lparr> Data = [1] \<rparr>) = Some b" for b
    by (simp add: decoded_def)
  have unnamed: "fst (saveBlob (decoded \<lparr> Name = [], Binary = [7] \<rparr>) digest_stub (\<lambda>p. True)
          fs agent \<lparr> Data = [1] \<rparr>)
        = join_with Separator [''work'', ''d41d8cd9'']" for fs
  proof -
    have "fst (saveBlob (decoded \<lparr> Name = [], Binary = [7] \<rparr>) digest_stub (\<lambda>p. True)
          fs agent \<lparr> Data = [1] \<rparr>)
        = Join [Workdir agent, hex_bytes (digest_stub [7])]"
      using saveBlob_naming [of "decoded \<lparr> Name = [], Binary = [7] \<rparr>" "\<lparr> Data = [1] \<rparr>"
               "\<lparr> Name = [], Binary = [7] \<rparr>" "\<lambda>p. True" agent digest_stub fs, OF d]
      by simp
    then show ?thesis
      by (simp only: stub_paths)
  qed
  show "fst (saveBlob (decoded \<lparr> Name = [], Binary = [7] \<rparr>) digest_stub (\<lambda>p. True)
          (\<lambda>p. Missing) agent \<lparr> Data = [1] \<rparr>)
        = join_with Separator [''work'', ''d41d8cd9'']"
    by (rule unnamed)
  show "fst (saveBlob (decoded \<lparr> Name = [], Binary = [7] \<rparr>) digest_stub (\<lambda>p. True)
          (snd (saveBlob (decoded \<lparr> Name = [], Binary = [7] \<rparr>) digest_stub (\<lambda>p. True)
                  (\<lambda>p. Missing) agent \<lparr> Data = [1] \<rparr>))
          agent \<lparr> Data = [1] \<rparr>)
        = join_with Separator [''work'', ''d41d8cd9'']"
    by (rule unnamed)
  have "fst (saveBlob (decoded \<lparr> Name = ''photo.jpg'', Binary = [7] \<rparr>) digest_stub (\<lambda>p. True)
          (\<lambda>p. Missing) agent \<lparr> Data = [1] \<rparr>)
        = Join [Workdir agent, ''photo.jpg'']"
    using saveBlob_naming [of "decoded \<lparr> Name = ''photo.jpg'', Binary = [7] \<rparr>" "\<lparr> Data = [1] \<rparr>"
             "\<lparr> Name = ''photo.jpg'', Binary = [7] \<rparr>" "\<lambda>p. True" agent digest_stub
             "\<lambda>p. Missing", OF d]
    by simp
  then show "fst (saveBlob (decoded \<lparr> Name = ''photo.jpg'', Binary = [7] \<rparr>) digest_stub
          (\<lambda>p. True) (\<lambda>p. Missing) agent \<lparr> Data = [1] \<rparr>)
        = join_with Separator [''work'', ''photo.jpg'']"
    by (simp only: stub_paths)
  show "saveBlob (decoded \<lparr> Name = ''photo.jpg'', Binary = [7] \<rparr>) digest_stub (\<lambda>p. False)
          (\<lambda>p. Missing) agent \<lparr> Data = [1] \<rparr>
     = ([], \<lambda>p. Missing)"
    using saveBlob_naming [of "decoded \<lparr> Name = ''photo.jpg'', Binary = [7] \<rparr>" "\<lparr> Data = [1] \<rparr>"
             "\<lparr> Name = ''photo.jpg'', Binary = [7] \<rparr>" "\<lambda>p. False" agent digest_stub
             "\<lambda>p. Missing", OF d]
    by simp
qed




end
